theory Spec2Isabelle
  imports Main
begin

section \<open>Data model of \<open>main.go\<close>\<close>

text \<open>
  \<^verbatim>\<open>type Story struct { Title string; URL string }\<close> and
  \<^verbatim>\<open>type HighValueInsight struct { Title, URL, Summary, Priority string }\<close>.
  Field names of records are global in a theory, so the second struct, which repeats the
  two fields of the first and adds two, is declared as an extension of the first: it has
  the four fields of the Go struct, in the same order.
\<close>

record Story =
  Title :: string
  URL :: string

record HighValueInsight = Story +
  Summary :: string
  Priority :: string

text \<open>The constants of the \<^verbatim>\<open>const\<close> block and the table of fade levels.\<close>

definition maxEntries :: nat where
  "maxEntries = 20"


definition fadeLevels :: "string list" where
  "fadeLevels = [''[white]'', ''[lightgray]'', ''[gray]'', ''[darkgray]'', ''[black]'']"

section \<open>Go runtime and library behaviour used by the program\<close>

text \<open>
  A run-time panic of Go is a value of the model. The two panics the rendering code could
  raise are an integer division by zero and an index out of range.
\<close>

datatype panic = DivideByZero | IndexOutOfRange

text \<open>
  Go's \<^verbatim>\<open>/\<close> on \<^verbatim>\<open>int\<close> truncates towards zero and panics on a zero divisor.
  Go's \<^verbatim>\<open>int\<close> is 64 bits wide; the only product the program computes is
  \<^verbatim>\<open>i * 4\<close> for an index \<open>i\<close> of a slice of strings, which stays far below \<open>2^63\<close>
  for every slice that fits in memory, so the integers are modelled as \<open>int\<close>.
\<close>

definition go_div :: "int \<Rightarrow> int \<Rightarrow> panic + int" where
  "go_div a b = (if b = 0 then Inl DivideByZero else Inr (sgn a * sgn b * (\<bar>a\<bar> div \<bar>b\<bar>)))"

text \<open>Indexing a slice, \<^verbatim>\<open>xs[i]\<close>: a panic outside \<open>0 \<le> i < len(xs)\<close>.\<close>

definition go_index :: "'a list \<Rightarrow> int \<Rightarrow> panic + 'a" where
  "go_index xs i = (if 0 \<le> i \<and> i < int (length xs) then Inr (xs ! nat i) else Inl IndexOutOfRange)"

text \<open>
  \<^verbatim>\<open>strings.Join(elems, sep)\<close>: the elements with \<open>sep\<close> between each two of them;
  the empty string for no element.
\<close>

fun strings_Join :: "string list \<Rightarrow> string \<Rightarrow> string" where
  "strings_Join [] sep = []"
| "strings_Join [x] sep = x"
| "strings_Join (x # y # ys) sep = x @ sep @ strings_Join (y # ys) sep"

text \<open>
  \<^verbatim>\<open>strings.Split(s, sep)\<close> for a separator of one byte, the only way the program
  calls it (\<^verbatim>\<open>"\n"\<close>): the substrings between the separators, so one more substring
  than \<open>s\<close> has separators, and \<open>[s]\<close> when \<open>s\<close> has none (also for the empty \<open>s\<close>).
\<close>

fun strings_Split :: "string \<Rightarrow> char \<Rightarrow> string list" where
  "strings_Split [] sep = [[]]"
| "strings_Split (c # cs) sep =
     (if c = sep then [] # strings_Split cs sep
      else (case strings_Split cs sep of
              [] \<Rightarrow> [[c]]
            | l # ls \<Rightarrow> (c # l) # ls))"

section \<open>The feed buffer\<close>

text \<open>
  \<^verbatim>\<open>func addEntry(entries []string, message string) []string\<close>: the message is put
  in front, and a list longer than \<open>maxEntries\<close> is cut to its first \<open>maxEntries\<close>.
\<close>

definition addEntry :: "string list \<Rightarrow> string \<Rightarrow> string list" where
  "addEntry entries message =
     (let entries' = [message] @ entries
      in if length entries' > maxEntries then take maxEntries entries' else entries')"

text \<open>
  The loop of \<^verbatim>\<open>formatEntriesWithFade\<close>, \<^verbatim>\<open>for i, entry := range entries\<close>:
  \<open>entries\<close> is the whole slice (its length is the divisor), \<open>i\<close> the index of the next
  entry, the third argument the entries still to visit, and \<open>formattedEntries\<close> the slice
  built so far. The division and the indexing of \<open>fadeLevels\<close> can panic.
\<close>

fun formatLoop :: "string list \<Rightarrow> int \<Rightarrow> string list \<Rightarrow> string list \<Rightarrow> panic + string list" where
  "formatLoop entries i [] formattedEntries = Inr formattedEntries"
| "formatLoop entries i (entry # rest) formattedEntries =
     (case go_div (i * (int (length fadeLevels) - 1)) (int (length entries)) of
        Inl p \<Rightarrow> Inl p
      | Inr fadeIndex \<Rightarrow>
          (case go_index fadeLevels fadeIndex of
             Inl p \<Rightarrow> Inl p
           | Inr color \<Rightarrow>
               formatLoop entries (i + 1) rest (formattedEntries @ [color @ entry @ ''[-]''])))"

definition formatEntriesWithFade :: "string list \<Rightarrow> panic + string" where
  "formatEntriesWithFade entries =
     (case formatLoop entries 0 entries [] of
        Inl p \<Rightarrow> Inl p
      | Inr formattedEntries \<Rightarrow> Inr (strings_Join formattedEntries ''\<newline>\<newline>''))"

section \<open>The outside world: HTTP, JSON decoding and the subprocess\<close>

text \<open>
  A Go \<^verbatim>\<open>error\<close> is a value with a message (\<^verbatim>\<open>err.Error()\<close>, what \<^verbatim>\<open>%v\<close> prints).
\<close>

datatype error = Error (message: string)

text \<open>
  The library calls of the program are parameters of the model. \<open>'w\<close> is the state of
  the world outside the program (network, processes, time), which every call that does
  input or output may read and change; \<open>'r\<close> is an HTTP response whose body is still to be
  read. A library call that returns \<^verbatim>\<open>(value, err)\<close> with a value the program never
  looks at when \<open>err\<close> is set is a sum, \<open>Inl\<close> the error.
  \<^item> \<open>http_Get url\<close>: \<^verbatim>\<open>http.Get(url)\<close>;
  \<^item> \<open>ioutil_ReadAll resp\<close>: \<^verbatim>\<open>ioutil.ReadAll(resp.Body)\<close>, with the deferred
    \<^verbatim>\<open>resp.Body.Close()\<close> that follows it (the program does no other input or
    output between the two, and ignores what \<^verbatim>\<open>Close\<close> returns);
  \<^item> \<open>json_Unmarshal_ints body\<close>: \<^verbatim>\<open>json.Unmarshal(body, &storyIDs)\<close> for a nil
    \<^verbatim>\<open>storyIDs []int\<close>;
  \<^item> \<open>json_Unmarshal_Story body\<close>: \<^verbatim>\<open>json.Unmarshal(body, &story)\<close> for a zero
    \<^verbatim>\<open>story Story\<close>;
  \<^item> \<open>cmd_Run args\<close>: \<^verbatim>\<open>exec.Command(args...)\<close> with \<^verbatim>\<open>cmd.Stdout = &out\<close>, then
    \<^verbatim>\<open>cmd.Run()\<close>: what the buffer \<open>out\<close> holds afterwards, and the error.
\<close>

record ('w, 'r) env =
  http_Get :: "string \<Rightarrow> 'w \<Rightarrow> (error + 'r) \<times> 'w"
  ioutil_ReadAll :: "'r \<Rightarrow> 'w \<Rightarrow> (error + string) \<times> 'w"
  json_Unmarshal_ints :: "string \<Rightarrow> error + int list"
  json_Unmarshal_Story :: "string \<Rightarrow> error + Story"
  cmd_Run :: "string list \<Rightarrow> 'w \<Rightarrow> (string \<times> error option) \<times> 'w"




definition zero_HighValueInsight :: HighValueInsight where
  "zero_HighValueInsight = \<lparr>Title = [], URL = [], Summary = [], Priority = []\<rparr>"

section \<open>Story source\<close>






section \<open>Relevance classifier\<close>

definition prompt :: "Story \<Rightarrow> string" where
  "prompt story =
     ''You are an expert cybersecurity analyst. Analyze the following headline and URL to determine its relevance and priority in cybersecurity. Respond with a priority level (e.g., High, Medium, Low) and provide a summary if relevant. Keep everything very short.\<newline>\<newline>Title: ''
     @ Title story @ ''\<newline>URL: '' @ URL story"

definition analyzeWithOllama ::
  "('w, 'r) env \<Rightarrow> Story \<Rightarrow> 'w \<Rightarrow> (HighValueInsight \<times> error option) \<times> 'w" where
  "analyzeWithOllama E story w =
     (case cmd_Run E [''ollama'', ''run'', ''llama3.2'', prompt story] w of
        ((out, Some err), w1) \<Rightarrow>
          ((zero_HighValueInsight,
            Some (Error (''failed to execute Ollama command: '' @ message err))), w1)
      | ((out, None), w1) \<Rightarrow>
          (let output = out;
               lines = strings_Split output CHR 0x0A
           in if length lines < 2
              then ((\<lparr>Title = Title story, URL = URL story,
                       Summary = ''[red]Invalid response format from Ollama[-]'',
                       Priority = ''Low''\<rparr>, None), w1)
              else (let priority = lines ! 0;
                        summary = strings_Join (drop 1 lines) '' ''
                    in ((\<lparr>Title = Title story, URL = URL story,
                           Summary = summary, Priority = priority\<rparr>, None), w1))))"

section \<open>The poll loop of \<open>main\<close>\<close>






section \<open>The loops with the fetched IDs made visible\<close>





section \<open>The specification's fade bucket, and concrete inputs\<close>

text \<open>
  The fade bucket in the specification's words: \<open>floor(i * (K - 1) / n)\<close> for the entry at
  position \<open>i\<close> of \<open>n\<close>, with \<open>K\<close> fade levels.
\<close>

definition fade_bucket_spec :: "nat \<Rightarrow> nat \<Rightarrow> nat \<Rightarrow> nat" where
  "fade_bucket_spec K n i = i * (K - 1) div n"

text \<open>A list of one-letter messages, for concrete runs of the buffer.\<close>

definition letters :: "string \<Rightarrow> string list" where
  "letters s = map (\<lambda>c. [c]) s"

text \<open>
  Concrete worlds for running the model. In \<open>env_demo\<close> every call succeeds: the list of
  IDs is \<open>[101, 102]\<close>, every story is \<open>{title: "A", url: "u1"}\<close> and the classifier prints
  \<open>"High\nLooks urgent"\<close>; the world is a counter of the calls made. The others differ
  from it in one call that fails.
\<close>

definition env_demo :: "(nat, string) env" where
  "env_demo =
     \<lparr>http_Get = (\<lambda>url w. (Inr url, Suc w)),
      ioutil_ReadAll = (\<lambda>resp w. (Inr resp, Suc w)),
      json_Unmarshal_ints = (\<lambda>body. Inr [101, 102]),
      json_Unmarshal_Story = (\<lambda>body. Inr \<lparr>Title = ''A'', URL = ''u1''\<rparr>),
      cmd_Run = (\<lambda>args w. ((''High\<newline>Looks urgent'', None), Suc w))\<rparr>"






section \<open>Properties of the feed buffer and its rendering\<close>

lemma addEntry_take: "addEntry es m = take maxEntries (m # es)"
  by (simp add: addEntry_def Let_def)

lemma foldl_addEntry_take: "foldl addEntry [] ms = take maxEntries (rev ms)"
proof (induction ms rule: rev_induct)
  case Nil
  show ?case by simp
next
  case (snoc m ms)
  have "foldl addEntry [] (ms @ [m]) = take maxEntries (m # take maxEntries (rev ms))"
    by (simp add: snoc.IH addEntry_take)
  also have "\<dots> = take maxEntries (m # rev ms)"
    by (simp add: maxEntries_def take_Cons')
  finally show ?case by simp
qed

lemma fade_div: 
  assumes "i < n"
  shows "go_div (int i * (int (length fadeLevels) - 1)) (int n) = Inr (int (i * 4 div n))"
proof -
  have len: "int (length fadeLevels) - 1 = 4"
    by (simp add: fadeLevels_def)
  have "go_div (int i * 4) (int n) = Inr (int (i * 4 div n))"
    using assms by (cases "i = 0") (simp_all add: go_div_def zdiv_int)
  then show ?thesis unfolding len .
qed

lemma fade_bound: "i < n \<Longrightarrow> i * 4 div n \<le> (3::nat)"
proof -
  assume "i < n"
  then have "i * 4 < 4 * n" by simp
  then have "i * 4 div n < 4" by (rule less_mult_imp_div_less)
  then show ?thesis by simp
qed

lemma formatLoop_gen:
  "entries = pre @ rest \<Longrightarrow> i = int (length pre) \<Longrightarrow>
   formatLoop entries i rest acc =
     Inr (acc @ map (\<lambda>k. fadeLevels ! (k * 4 div length entries) @ entries ! k @ ''[-]'')
                  [length pre..<length entries])"
proof (induction rest arbitrary: pre acc i)
  case Nil
  then show ?case by simp
next
  case (Cons e rest)
  have lt: "length pre < length entries" using Cons.prems by simp
  have ix: "go_index fadeLevels (int (length pre * 4 div length entries))
            = Inr (fadeLevels ! (length pre * 4 div length entries))"
    using fade_bound[OF lt] by (simp add: go_index_def fadeLevels_def)
  have step: "formatLoop entries (int (length (pre @ [e]))) rest
               (acc @ [fadeLevels ! (length pre * 4 div length entries) @ e @ ''[-]'']) =
      Inr ((acc @ [fadeLevels ! (length pre * 4 div length entries) @ e @ ''[-]'']) @
         map (\<lambda>k. fadeLevels ! (k * 4 div length entries) @ entries ! k @ ''[-]'')
                  [length (pre @ [e])..<length entries])"
    by (rule Cons.IH) (use Cons.prems in simp_all)
  have e: "entries ! length pre = e" using Cons.prems by simp
  have up: "[length pre..<length entries] = length pre # [Suc (length pre)..<length entries]"
    using lt by (simp add: upt_conv_Cons)
  show ?case
    unfolding Cons.prems(2) formatLoop.simps fade_div[OF lt] up
    using step e by (simp add: ix add.commute)
qed

lemma formatLoop_all:
  "formatLoop entries 0 entries [] =
     Inr (map (\<lambda>k. fadeLevels ! (k * 4 div length entries) @ entries ! k @ ''[-]'')
              [0..<length entries])"
  using formatLoop_gen[of entries "[]" entries 0 "[]"] by simp

text \<open>
  Claim C1. Starting from the empty buffer, after any sequence \<open>ms\<close> of insertions with
  \<open>addEntry\<close> the buffer has at most \<open>maxEntries\<close> entries and is the first
  \<open>maxEntries\<close> of the insertions read backwards (newest first); after more than
  \<open>maxEntries\<close> insertions it is exactly the last \<open>maxEntries\<close> of them, newest first;
  and one more insertion puts the message in front, dropping the last (oldest) entry
  exactly when the buffer is full.
\<close>

theorem C1_feed_buffer_bounded:
  "length (foldl addEntry [] ms) \<le> maxEntries
   \<and> foldl addEntry [] ms = take maxEntries (rev ms)
   \<and> (maxEntries < length ms \<longrightarrow>
        length (foldl addEntry [] ms) = maxEntries
        \<and> foldl addEntry [] ms = rev (drop (length ms - maxEntries) ms))
   \<and> (length (foldl addEntry [] ms) < maxEntries \<longrightarrow>
        addEntry (foldl addEntry [] ms) m = m # foldl addEntry [] ms)
   \<and> (length (foldl addEntry [] ms) = maxEntries \<longrightarrow>
        addEntry (foldl addEntry [] ms) m = m # butlast (foldl addEntry [] ms))"
proof -
  let ?b = "foldl addEntry [] ms"
  have eq: "?b = take maxEntries (rev ms)" by (rule foldl_addEntry_take)
  have len: "length ?b \<le> maxEntries" by (simp add: eq)
  have over: "length ?b = maxEntries \<and> ?b = rev (drop (length ms - maxEntries) ms)"
    if "maxEntries < length ms"
    using that by (simp add: eq take_rev)
  have below: "addEntry ?b m = m # ?b" if "length ?b < maxEntries"
    using that by (simp add: addEntry_def)
  have full: "addEntry ?b m = m # butlast ?b" if "length ?b = maxEntries"
  proof -
    have "addEntry ?b m = take maxEntries (m # ?b)" by (rule addEntry_take)
    also have "\<dots> = m # take (maxEntries - 1) ?b" by (simp add: maxEntries_def)
    also have "take (maxEntries - 1) ?b = butlast ?b"
      using that by (simp add: butlast_conv_take)
    finally show ?thesis .
  qed
  from eq len over below full show ?thesis by blast
qed

theorem C1_feed_buffer_bounded_witness:
  "foldl addEntry [] (letters ''abcdefghijklmnopqrstu'') = letters ''utsrqponmlkjihgfedcb''
   \<and> addEntry (foldl addEntry [] (letters ''abcdefghijklmnopqrstu'')) ''v''
       = letters ''vutsrqponmlkjihgfedc''
   \<and> addEntry (foldl addEntry [] (letters ''a'')) ''b'' = letters ''ba''"
  using C1_feed_buffer_bounded [of "letters ''abcdefghijklmnopqrstu''" "''v''"]
    C1_feed_buffer_bounded [of "letters ''a''" "''b''"]
  by (simp add: letters_def maxEntries_def addEntry_def)

text \<open>
  Claim C5. Rendering the empty buffer gives the empty string: the loop body, the only
  place that divides, is never run, so no panic is raised.
\<close>

theorem C5_render_empty:
  "formatLoop [] 0 [] [] = Inr [] \<and> formatEntriesWithFade [] = Inr []"
  by (simp add: formatEntriesWithFade_def)

text \<open>
  Claim C9. For every position \<open>i\<close> of a buffer, the division of the fade index does not
  panic, its result \<open>k\<close> is at most \<open>len(fadeLevels) - 2 = 3\<close>, indexing \<open>fadeLevels\<close> with it
  is in bounds, the colour put before entry \<open>i\<close> is never \<open>[black]\<close>, and the rendering
  returns a text.
\<close>

theorem C9_fade_index_in_bounds:
  assumes "i < length entries"
  shows "\<exists>k segs text.
           go_div (int i * (int (length fadeLevels) - 1)) (int (length entries)) = Inr k
           \<and> 0 \<le> k \<and> k \<le> int (length fadeLevels) - 2 \<and> k \<le> 3
           \<and> go_index fadeLevels k = Inr (fadeLevels ! nat k)
           \<and> fadeLevels ! nat k \<noteq> ''[black]''
           \<and> formatLoop entries 0 entries [] = Inr segs
           \<and> segs ! i = fadeLevels ! nat k @ entries ! i @ ''[-]''
           \<and> formatEntriesWithFade entries = Inr text"
proof -
  let ?k = "i * 4 div length entries"
  have b: "?k \<le> 3" using assms by (rule fade_bound)
  have "fadeLevels ! ?k \<noteq> ''[black]''"
  proof -
    from b have "?k = 0 \<or> ?k = 1 \<or> ?k = 2 \<or> ?k = 3" by arith
    then show ?thesis by (auto simp: fadeLevels_def)
  qed
  moreover have "go_index fadeLevels (int ?k) = Inr (fadeLevels ! ?k)"
    using b by (simp add: go_index_def fadeLevels_def)
  moreover have "int ?k \<le> int (length fadeLevels) - 2" "int ?k \<le> 3"
    using b by (simp_all add: fadeLevels_def)
  moreover have "map (\<lambda>k. fadeLevels ! (k * 4 div length entries) @ entries ! k @ ''[-]'')
              [0..<length entries] ! i = fadeLevels ! ?k @ entries ! i @ ''[-]''"
    using assms by simp
  ultimately show ?thesis
    using fade_div[OF assms] formatLoop_all[of entries]
    by (simp add: formatEntriesWithFade_def)
qed

theorem C9_fade_index_in_bounds_witness:
  "\<exists>k segs text.
     go_div (int 2 * (int (length fadeLevels) - 1)) (int (length [''a'', ''b'', ''c''])) = Inr k
     \<and> k \<le> 3 \<and> fadeLevels ! nat k \<noteq> ''[black]''
     \<and> formatLoop [''a'', ''b'', ''c''] 0 [''a'', ''b'', ''c''] [] = Inr segs
     \<and> segs ! 2 = fadeLevels ! nat k @ ''c'' @ ''[-]''
     \<and> formatEntriesWithFade [''a'', ''b'', ''c''] = Inr text"
  using C9_fade_index_in_bounds [of 2 "[''a'', ''b'', ''c'']"]
  by (simp add: go_div_def go_index_def fadeLevels_def formatEntriesWithFade_def)

text \<open>
  Claim C2. For a buffer of \<open>n \<ge> 1\<close> entries the rendering is the \<open>n\<close> segments joined by
  a blank line, segment \<open>i\<close> being the colour of fade bucket \<open>floor(i * (5 - 1) / n)\<close>, the
  entry, and the reset tag; the code's division computes that bucket; the newest entry
  gets bucket 0, the first fade level; and the bucket does not decrease with the position.
\<close>

theorem C2_render_fade:
  assumes "1 \<le> length entries"
  shows "\<exists>segs.
           formatLoop entries 0 entries [] = Inr segs
           \<and> formatEntriesWithFade entries = Inr (strings_Join segs ''\<newline>\<newline>'')
           \<and> length segs = length entries
           \<and> (\<forall>i < length entries.
                 go_div (int i * (int (length fadeLevels) - 1)) (int (length entries))
                   = Inr (int (fade_bucket_spec 5 (length entries) i))
                 \<and> segs ! i = fadeLevels ! fade_bucket_spec 5 (length entries) i
                              @ entries ! i @ ''[-]'')
           \<and> fade_bucket_spec 5 (length entries) 0 = 0
           \<and> fadeLevels ! fade_bucket_spec 5 (length entries) 0 = ''[white]''
           \<and> (\<forall>i j. i \<le> j \<longrightarrow>
                 fade_bucket_spec 5 (length entries) i \<le> fade_bucket_spec 5 (length entries) j)"
proof -
  let ?n = "length entries"
  let ?segs = "map (\<lambda>k. fadeLevels ! (k * 4 div ?n) @ entries ! k @ ''[-]'') [0..<?n]"
  have b: "fade_bucket_spec 5 ?n i = i * 4 div ?n" for i
    by (simp add: fade_bucket_spec_def)
  have mono: "fade_bucket_spec 5 ?n i \<le> fade_bucket_spec 5 ?n j" if "i \<le> j" for i j
    unfolding b using that by (simp add: div_le_mono)
  have "formatLoop entries 0 entries [] = Inr ?segs" by (rule formatLoop_all)
  moreover have "formatEntriesWithFade entries = Inr (strings_Join ?segs ''\<newline>\<newline>'')"
    by (simp add: formatEntriesWithFade_def formatLoop_all)
  moreover have "length ?segs = ?n" by simp
  moreover have "\<forall>i < ?n.
                 go_div (int i * (int (length fadeLevels) - 1)) (int ?n)
                   = Inr (int (fade_bucket_spec 5 ?n i))
                 \<and> ?segs ! i = fadeLevels ! fade_bucket_spec 5 ?n i @ entries ! i @ ''[-]''"
    by (simp add: b fade_div)
  moreover have "fade_bucket_spec 5 ?n 0 = 0" by (simp add: b)
  moreover have "fadeLevels ! fade_bucket_spec 5 ?n 0 = ''[white]''"
    by (simp add: b fadeLevels_def)
  ultimately show ?thesis using mono by (intro exI [of _ ?segs]) simp
qed

theorem C2_render_fade_witness:
  "formatEntriesWithFade [''x'', ''y'', ''z'']
     = Inr ''[white]x[-]\<newline>\<newline>[lightgray]y[-]\<newline>\<newline>[gray]z[-]''
   \<and> fade_bucket_spec 5 3 0 = 0 \<and> fade_bucket_spec 5 3 1 = 1 \<and> fade_bucket_spec 5 3 2 = 2"
  using C2_render_fade [of "[''x'', ''y'', ''z'']"]
  by (simp add: fade_bucket_spec_def go_div_def go_index_def fadeLevels_def
        formatEntriesWithFade_def)

section \<open>Properties of the classifier\<close>

lemma strings_Split_not_Nil: "strings_Split s sep \<noteq> []"
  by (induction s) (auto split: list.splits)

lemma strings_Split_no_sep: "sep \<notin> set s \<Longrightarrow> strings_Split s sep = [s]"
  by (induction s) auto

lemma strings_Split_append:
  "sep \<notin> set p \<Longrightarrow> strings_Split (p @ sep # rest) sep = p # strings_Split rest sep"
  by (induction p) auto

lemma strings_Split_length: "length (strings_Split s sep) = Suc (count_list s sep)"
  by (induction s) (auto split: list.splits simp: strings_Split_not_Nil)

lemma strings_Split_short_iff: "length (strings_Split s sep) < 2 \<longleftrightarrow> sep \<notin> set s"
  by (simp add: strings_Split_length count_list_0_iff)

lemma strings_Join_Cons:
  "ys \<noteq> [] \<Longrightarrow> strings_Join (x # ys) sep = x @ sep @ strings_Join ys sep"
  by (cases ys) simp_all

lemma strings_Join_Split: "strings_Join (strings_Split s sep) [sep] = s"
proof (induction s)
  case Nil
  show ?case by simp
next
  case (Cons c cs)
  show ?case
  proof (cases "c = sep")
    case True
    then show ?thesis using Cons.IH by (simp add: strings_Join_Cons strings_Split_not_Nil)
  next
    case False
    obtain l ls where sp: "strings_Split cs sep = l # ls"
      using strings_Split_not_Nil [of cs sep] by (cases "strings_Split cs sep") auto
    show ?thesis using False Cons.IH sp by (cases ls) simp_all
  qed
qed

lemma strings_Join_Split_replace:
  "strings_Join (strings_Split s sep) [d] = map (\<lambda>c. if c = sep then d else c) s"
proof (induction s)
  case Nil
  show ?case by simp
next
  case (Cons c cs)
  show ?case
  proof (cases "c = sep")
    case True
    then show ?thesis using Cons.IH by (simp add: strings_Join_Cons strings_Split_not_Nil)
  next
    case False
    obtain l ls where sp: "strings_Split cs sep = l # ls"
      using strings_Split_not_Nil [of cs sep] by (cases "strings_Split cs sep") auto
    show ?thesis using False Cons.IH sp by (cases ls) simp_all
  qed
qed

text \<open>
  Claim C3. When the subprocess succeeds and its output splits at newlines into at least
  two lines, \<open>analyzeWithOllama\<close> returns no error and an insight with the story's title
  and URL, whose priority is the first line as it is and whose summary is the other lines
  joined by one space. The lines are those of the output (joining them with newlines
  gives it back): the priority is the text before the first newline, whatever it is, and
  the summary is the text after it with every newline turned into a space.
\<close>

theorem C3_classify_parse:
  assumes run: "cmd_Run E [''ollama'', ''run'', ''llama3.2'', prompt story] w = ((output, None), w1)"
    and two: "2 \<le> length (strings_Split output CHR 0x0A)"
  shows "analyzeWithOllama E story w =
           ((\<lparr>Title = Title story, URL = URL story,
              Summary = strings_Join (drop 1 (strings_Split output CHR 0x0A)) '' '',
              Priority = strings_Split output CHR 0x0A ! 0\<rparr>, None), w1)
         \<and> strings_Join (strings_Split output CHR 0x0A) ''\<newline>'' = output
         \<and> (\<exists>rest. output = strings_Split output CHR 0x0A ! 0 @ ''\<newline>'' @ rest
               \<and> CHR 0x0A \<notin> set (strings_Split output CHR 0x0A ! 0)
               \<and> strings_Join (drop 1 (strings_Split output CHR 0x0A)) '' ''
                   = map (\<lambda>c. if c = CHR 0x0A then CHR '' '' else c) rest)"
proof -
  let ?lines = "strings_Split output CHR 0x0A"
  have a: "analyzeWithOllama E story w =
           ((\<lparr>Title = Title story, URL = URL story,
              Summary = strings_Join (drop 1 ?lines) '' '',
              Priority = ?lines ! 0\<rparr>, None), w1)"
    using two by (simp add: analyzeWithOllama_def run Let_def)
  have b: "strings_Join ?lines ''\<newline>'' = output"
    using strings_Join_Split [of "output" "CHR 0x0A"] by simp
  have "CHR 0x0A \<in> set output"
    using two strings_Split_short_iff [of "output" "CHR 0x0A"] by auto
  then obtain p rest where out: "output = p @ CHR 0x0A # rest" and p: "CHR 0x0A \<notin> set p"
    using split_list_first [of "CHR 0x0A" "output"] by blast
  have sp: "?lines = p # strings_Split rest CHR 0x0A"
    unfolding out using p by (rule strings_Split_append)
  have "output = ?lines ! 0 @ ''\<newline>'' @ rest
        \<and> CHR 0x0A \<notin> set (?lines ! 0)
        \<and> strings_Join (drop 1 ?lines) '' ''
            = map (\<lambda>c. if c = CHR 0x0A then CHR '' '' else c) rest"
    unfolding sp using p out strings_Join_Split_replace [of rest "CHR 0x0A" "CHR '' ''"]
    by simp
  with a b show ?thesis by blast
qed

theorem C3_classify_parse_witness:
  "analyzeWithOllama env_demo \<lparr>Title = ''A'', URL = ''u1''\<rparr> 0 =
     ((\<lparr>Title = ''A'', URL = ''u1'', Summary = ''Looks urgent'', Priority = ''High''\<rparr>, None), 1)"
  using C3_classify_parse [of env_demo "\<lparr>Title = ''A'', URL = ''u1''\<rparr>" 0
      "''High\<newline>Looks urgent''" 1]
  by (simp add: env_demo_def)

text \<open>
  Claim C4. When the subprocess succeeds and its output splits into fewer than two lines
  (it has no newline; the empty output is one such), \<open>analyzeWithOllama\<close> returns no
  error and the insight with the story's title and URL, priority \<open>Low\<close> and the fixed
  invalid-response summary.
\<close>

theorem C4_classify_short_output:
  assumes run: "cmd_Run E [''ollama'', ''run'', ''llama3.2'', prompt story] w = ((output, None), w1)"
    and short: "length (strings_Split output CHR 0x0A) < 2"
  shows "analyzeWithOllama E story w =
           ((\<lparr>Title = Title story, URL = URL story,
              Summary = ''[red]Invalid response format from Ollama[-]'',
              Priority = ''Low''\<rparr>, None), w1)
         \<and> strings_Split output CHR 0x0A = [output]"
proof -
  have "CHR 0x0A \<notin> set output"
    using short strings_Split_short_iff [of "output" "CHR 0x0A"] by simp
  then have "strings_Split output CHR 0x0A = [output]" by (rule strings_Split_no_sep)
  moreover have "analyzeWithOllama E story w =
           ((\<lparr>Title = Title story, URL = URL story,
              Summary = ''[red]Invalid response format from Ollama[-]'',
              Priority = ''Low''\<rparr>, None), w1)"
    using short by (simp add: analyzeWithOllama_def run Let_def)
  ultimately show ?thesis by simp
qed

theorem C4_classify_short_output_witness:
  "analyzeWithOllama (env_demo\<lparr>cmd_Run := \<lambda>args w. (([], None), Suc w)\<rparr>)
      \<lparr>Title = ''A'', URL = ''u1''\<rparr> 0 =
     ((\<lparr>Title = ''A'', URL = ''u1'',
        Summary = ''[red]Invalid response format from Ollama[-]'', Priority = ''Low''\<rparr>, None), 1)
   \<and> analyzeWithOllama (env_demo\<lparr>cmd_Run := \<lambda>args w. ((''High'', None), Suc w)\<rparr>)
      \<lparr>Title = ''A'', URL = ''u1''\<rparr> 0 =
     ((\<lparr>Title = ''A'', URL = ''u1'',
        Summary = ''[red]Invalid response format from Ollama[-]'', Priority = ''Low''\<rparr>, None), 1)"
  using C4_classify_short_output [of "env_demo\<lparr>cmd_Run := \<lambda>args w. (([], None), Suc w)\<rparr>"
      "\<lparr>Title = ''A'', URL = ''u1''\<rparr>" 0 "[]" 1]
    C4_classify_short_output [of "env_demo\<lparr>cmd_Run := \<lambda>args w. ((''High'', None), Suc w)\<rparr>"
      "\<lparr>Title = ''A'', URL = ''u1''\<rparr>" 0 "''High''" 1]
  by (simp add: env_demo_def)

section \<open>Properties of the story source and the poll loop\<close>
















section \<open>The seen-ID set\<close>












end
